theory Spec2Isabelle
  imports Main "HOL-Library.Char_ord" "HOL-Library.List_Lexorder"
begin

section \<open>Python values used by the exporter\<close>

text \<open>
  The exceptions the exporter can raise. A function of the source that can raise returns
  \<open>error + 'a\<close>, with \<open>Inl\<close> for the exception.
\<close>

datatype error = KeyError | ValueError | IndexError | OverflowError | FileNotFoundError

text \<open>
  Text is \<open>string\<close>. The character classes are the ASCII part of Python's \<open>\d\<close>,
  \<open>\w\<close> and of the white space \<open>str.split()\<close> and \<open>str.strip()\<close> use.
\<close>

definition is_digit :: "char \<Rightarrow> bool" where
  "is_digit c = (c \<in> set ''0123456789'')"

definition is_word :: "char \<Rightarrow> bool" where
  "is_word c = (c \<in> set ''abcdefghijklmnopqrstuvwxyzABCDEFGHIJKLMNOPQRSTUVWXYZ0123456789_'')"

definition is_space :: "char \<Rightarrow> bool" where
  "is_space c = (c \<in> {CHR '' '', CHR 0x09, CHR 0x0A, CHR 0x0B, CHR 0x0C, CHR 0x0D,
                      CHR 0x1C, CHR 0x1D, CHR 0x1E, CHR 0x1F})"

definition digit_val :: "char \<Rightarrow> int" where
  "digit_val c =
     (case map_of (zip ''0123456789'' [0, 1, 2, 3, 4, 5, 6, 7, 8, 9]) c of
        None \<Rightarrow> 0
      | Some v \<Rightarrow> v)"

definition digits_value :: "string \<Rightarrow> int" where
  "digits_value s = foldl (\<lambda>a c. 10 * a + digit_val c) 0 s"

text \<open>\<open>s.split()\<close>: the maximal runs of non-space characters, none of them empty.\<close>

fun split_ws_from :: "string \<Rightarrow> string \<Rightarrow> string list" where
  "split_ws_from cur [] = (if cur = [] then [] else [rev cur])"
| "split_ws_from cur (c # cs) =
     (if is_space c
      then (if cur = [] then split_ws_from [] cs else rev cur # split_ws_from [] cs)
      else split_ws_from (c # cur) cs)"

definition split_ws :: "string \<Rightarrow> string list" where
  "split_ws s = split_ws_from [] s"

text \<open>\<open>s.split(sep)\<close> for a one-character separator: empty pieces are kept.\<close>

fun split_on :: "char \<Rightarrow> string \<Rightarrow> string list" where
  "split_on sep [] = [[]]"
| "split_on sep (c # cs) =
     (if c = sep then [] # split_on sep cs
      else (case split_on sep cs of [] \<Rightarrow> [[c]] | w # ws \<Rightarrow> (c # w) # ws))"

text \<open>\<open>sep.join(xs)\<close>.\<close>

fun join :: "string \<Rightarrow> string list \<Rightarrow> string" where
  "join sep [] = []"
| "join sep [x] = x"
| "join sep (x # y # ys) = x @ sep @ join sep (y # ys)"

text \<open>\<open>s.startswith(p)\<close> and \<open>p in s\<close>.\<close>

fun startswith :: "string \<Rightarrow> string \<Rightarrow> bool" where
  "startswith s [] = True"
| "startswith [] (p # ps) = False"
| "startswith (c # cs) (p # ps) = (c = p \<and> startswith cs ps)"

fun contains :: "string \<Rightarrow> string \<Rightarrow> bool" where
  "contains [] p = (p = [])"
| "contains (c # cs) p = (startswith (c # cs) p \<or> contains cs p)"

text \<open>\<open>s.strip()\<close> and \<open>s.rstrip(chars)\<close>.\<close>

definition strip :: "string \<Rightarrow> string" where
  "strip s = rev (dropWhile is_space (rev (dropWhile is_space s)))"

definition rstrip :: "string \<Rightarrow> string \<Rightarrow> string" where
  "rstrip s chars = rev (dropWhile (\<lambda>c. c \<in> set chars) (rev s))"

text \<open>
  \<open>int(s)\<close> on text: surrounding white space is dropped, one sign is allowed, and the
  rest is decimal digits, where single underscores may stand between digits. Anything
  else raises ValueError, as does a numeral of more than 4300 digits (the interpreter's
  default limit for the conversion).
\<close>

fun int_body_ok :: "string \<Rightarrow> bool" where
  "int_body_ok [] = False"
| "int_body_ok [c] = is_digit c"
| "int_body_ok (c # d # ds) =
     (is_digit c \<and> (if d = CHR ''_'' then int_body_ok ds else int_body_ok (d # ds)))"

definition py_int :: "string \<Rightarrow> error + int" where
  "py_int s =
     (let t = strip s;
          neg = (t \<noteq> [] \<and> hd t = CHR ''-'');
          body = (if t \<noteq> [] \<and> (hd t = CHR ''-'' \<or> hd t = CHR ''+'') then tl t else t);
          ds = filter (\<lambda>c. c \<noteq> CHR ''_'') body
      in if int_body_ok body \<and> length ds \<le> 4300
         then Inr (if neg then - digits_value ds else digits_value ds)
         else Inl ValueError)"

text \<open>\<open>f"{n:02d}"\<close> for a number that is not negative.\<close>

definition digit_char :: "int \<Rightarrow> char" where
  "digit_char n = ''0123456789'' ! nat (n mod 10)"

function decimal :: "int \<Rightarrow> string" where
  "decimal n = (if n < 10 then [digit_char n] else decimal (n div 10) @ [digit_char n])"
  by pat_completeness auto
termination
  by (relation "measure nat") auto

definition zero_pad :: "nat \<Rightarrow> int \<Rightarrow> string" where
  "zero_pad w n = (let s = decimal n in replicate (w - length s) CHR ''0'' @ s)"

section \<open>Dates and times\<close>

text \<open>
  A \<open>datetime\<close> without time zone is a point of the proleptic Gregorian time line. It is
  kept as the number of microseconds since the midnight that begins day 0, where day 1
  is 0001-01-01 (the day number is what \<open>toordinal()\<close> returns), and compared
  chronologically. The constructor checks its fields as the library does.
\<close>

type_synonym datetime = int

definition MAXORDINAL :: int where
  "MAXORDINAL = 3652059"

definition US_PER_DAY :: int where
  "US_PER_DAY = 86400000000"

definition US_PER_HOUR :: int where
  "US_PER_HOUR = 3600000000"

definition is_leap :: "int \<Rightarrow> bool" where
  "is_leap y = (y mod 4 = 0 \<and> (y mod 100 \<noteq> 0 \<or> y mod 400 = 0))"

definition days_before_year :: "int \<Rightarrow> int" where
  "days_before_year y = (y - 1) * 365 + (y - 1) div 4 - (y - 1) div 100 + (y - 1) div 400"

definition DAYS_IN_MONTH :: "int list" where
  "DAYS_IN_MONTH = [0, 31, 28, 31, 30, 31, 30, 31, 31, 30, 31, 30, 31]"

definition DAYS_BEFORE_MONTH :: "int list" where
  "DAYS_BEFORE_MONTH = [0, 0, 31, 59, 90, 120, 151, 181, 212, 243, 273, 304, 334]"

definition days_in_month :: "int \<Rightarrow> int \<Rightarrow> int" where
  "days_in_month y m = (if m = 2 \<and> is_leap y then 29 else DAYS_IN_MONTH ! nat m)"

definition days_before_month :: "int \<Rightarrow> int \<Rightarrow> int" where
  "days_before_month y m = DAYS_BEFORE_MONTH ! nat m + (if 2 < m \<and> is_leap y then 1 else 0)"

definition ymd2ord :: "int \<Rightarrow> int \<Rightarrow> int \<Rightarrow> int" where
  "ymd2ord y m d = days_before_year y + days_before_month y m + d"

text \<open>\<open>datetime(year, month, day, hour, minute, second)\<close>; the month comes from the table,
  so it is in range.\<close>

definition mk_datetime :: "int \<Rightarrow> int \<Rightarrow> int \<Rightarrow> int \<Rightarrow> int \<Rightarrow> int \<Rightarrow> error + datetime" where
  "mk_datetime y m d hh mm ss =
     (if 1 \<le> y \<and> y \<le> 9999 \<and> 1 \<le> m \<and> m \<le> 12 \<and> 1 \<le> d \<and> d \<le> days_in_month y m
         \<and> 0 \<le> hh \<and> hh \<le> 23 \<and> 0 \<le> mm \<and> mm \<le> 59 \<and> 0 \<le> ss \<and> ss \<le> 59
      then Inr ((ymd2ord y m d * 86400 + hh * 3600 + mm * 60 + ss) * 1000000)
      else Inl ValueError)"

definition date_of :: "datetime \<Rightarrow> int" where
  "date_of t = t div US_PER_DAY"

definition hour_of :: "datetime \<Rightarrow> int" where
  "hour_of t = (t mod US_PER_DAY) div US_PER_HOUR"

text \<open>\<open>t - timedelta(hours=h)\<close>: OverflowError when the result leaves the years 1 to 9999.\<close>

definition minus_hours :: "datetime \<Rightarrow> int \<Rightarrow> error + datetime" where
  "minus_hours t h =
     (let r = t - h * US_PER_HOUR
      in if 0 < date_of r \<and> date_of r \<le> MAXORDINAL then Inr r else Inl OverflowError)"

text \<open>The day number back to year, month and day, and \<open>strftime("%Y-%m-%d")\<close> of it,
  the year written with four digits.\<close>

definition ord2ymd :: "int \<Rightarrow> int \<times> int \<times> int" where
  "ord2ymd n0 =
     (let n = n0 - 1;
          n400 = n div 146097; n = n mod 146097;
          n100 = n div 36524; n = n mod 36524;
          n4 = n div 1461; n = n mod 1461;
          n1 = n div 365; n = n mod 365;
          year = n400 * 400 + 1 + n100 * 100 + n4 * 4 + n1
      in if n1 = 4 \<or> n100 = 4 then (year - 1, 12, 31)
         else
           let leapyear = (n1 = 3 \<and> (n4 \<noteq> 24 \<or> n100 = 3));
               month = (n + 50) div 32;
               preceding = DAYS_BEFORE_MONTH ! nat month + (if 2 < month \<and> leapyear then 1 else 0);
               month' = (if n < preceding then month - 1 else month);
               preceding' = (if n < preceding
                             then preceding - (DAYS_IN_MONTH ! nat month'
                                               + (if month' = 2 \<and> leapyear then 1 else 0))
                             else preceding)
           in (year, month', n - preceding' + 1))"

definition strftime_ymd :: "int \<Rightarrow> string" where
  "strftime_ymd day =
     (case ord2ymd day of (y, m, d) \<Rightarrow> zero_pad 4 y @ ''-'' @ zero_pad 2 m @ ''-'' @ zero_pad 2 d)"

section \<open>The timestamp extractor\<close>

text \<open>
  \<open>LOG_PATTERN\<close> has a fixed length: every item of it matches one character. A pattern
  is the list of its items, and \<open>search\<close> returns the text from the leftmost position
  where the pattern matches.
\<close>

datatype item = Lit char | Digit | Word

fun item_ok :: "item \<Rightarrow> char \<Rightarrow> bool" where
  "item_ok (Lit a) c = (c = a)"
| "item_ok Digit c = is_digit c"
| "item_ok Word c = is_word c"

fun match_here :: "item list \<Rightarrow> string \<Rightarrow> bool" where
  "match_here [] s = True"
| "match_here (i # is) [] = False"
| "match_here (i # is) (c # cs) = (item_ok i c \<and> match_here is cs)"

fun search :: "item list \<Rightarrow> string \<Rightarrow> string option" where
  "search p [] = (if match_here p [] then Some [] else None)"
| "search p (c # cs) = (if match_here p (c # cs) then Some (c # cs) else search p cs)"

definition LOG_PATTERN :: "item list" where
  "LOG_PATTERN =
     [Lit CHR ''['', Digit, Digit, Lit CHR ''/'', Word, Word, Word, Lit CHR ''/'',
      Digit, Digit, Digit, Digit, Lit CHR '':'', Digit, Digit, Lit CHR '':'',
      Digit, Digit, Lit CHR '':'', Digit, Digit]"

definition MONTHS :: "(string \<times> int) list" where
  "MONTHS =
     [(''Jan'', 1), (''Feb'', 2), (''Mar'', 3), (''Apr'', 4), (''May'', 5), (''Jun'', 6),
      (''Jul'', 7), (''Aug'', 8), (''Sep'', 9), (''Oct'', 10), (''Nov'', 11), (''Dec'', 12)]"

text \<open>
  \<open>parse_line_time\<close>: \<open>Inr None\<close> is the returned \<open>None\<close>, \<open>Inl\<close> an exception. The
  groups are the pieces of the match at the offsets the pattern fixes. The arguments of
  \<open>datetime(...)\<close> are evaluated before the call, so the month lookup raises first.
\<close>

definition parse_line_time :: "string \<Rightarrow> error + datetime option" where
  "parse_line_time line =
     (case search LOG_PATTERN line of
        None \<Rightarrow> Inr None
      | Some m \<Rightarrow>
          (let day = take 2 (drop 1 m); mon = take 3 (drop 4 m); year = take 4 (drop 8 m);
               hh = take 2 (drop 13 m); mm = take 2 (drop 16 m); ss = take 2 (drop 19 m)
           in case map_of MONTHS mon of
                None \<Rightarrow> Inl KeyError
              | Some mo \<Rightarrow>
                  (case mk_datetime (digits_value year) mo (digits_value day)
                          (digits_value hh) (digits_value mm) (digits_value ss) of
                     Inl e \<Rightarrow> Inl e
                   | Inr t \<Rightarrow> Inr (Some t))))"

section \<open>Counters and the aggregation result\<close>

text \<open>
  A \<open>Counter\<close> is a dictionary: its items are kept in the order in which the keys were
  first counted, which is the order \<open>items()\<close> and \<open>most_common\<close> see.
\<close>

type_synonym counter = "(string \<times> nat) list"

fun counter_inc :: "counter \<Rightarrow> string \<Rightarrow> counter" where
  "counter_inc [] k = [(k, 1)]"
| "counter_inc ((k', n) # c) k =
     (if k' = k then (k', n + 1) # c else (k', n) # counter_inc c k)"

definition values_sum :: "counter \<Rightarrow> nat" where
  "values_sum c = sum_list (map snd c)"

text \<open>
  \<open>most_common(n)\<close> is the first \<open>n\<close> items of the items sorted by count, highest
  first; the sort is stable, so equal counts stay in the order of first counting.
\<close>

definition most_common :: "nat \<Rightarrow> counter \<Rightarrow> counter" where
  "most_common n c = take n (sort_key (\<lambda>kv. - int (snd kv)) c)"

record metrics =
  total :: nat
  by_user :: counter
  by_endpoint :: counter
  by_repo :: counter
  by_service :: counter
  by_ip :: counter
  by_hour :: counter
  by_status :: counter
  custom_flags :: counter

definition no_metrics :: metrics where
  "no_metrics = \<lparr>total = 0, by_user = [], by_endpoint = [], by_repo = [], by_service = [],
                  by_ip = [], by_hour = [], by_status = [], custom_flags = []\<rparr>"

section \<open>The world the exporter reads\<close>

text \<open>
  The clock and the file system are inputs. \<open>now\<close> is the value of \<open>datetime.now()\<close>,
  the same at every call during one request; \<open>files\<close> gives, for each path that
  exists, the lines of text its reader produces (for a \<open>.gz\<close> file, of the
  decompressed text).
\<close>

record env =
  now :: datetime
  files :: "string \<Rightarrow> string list option"

definition LOG_DIR :: string where
  "LOG_DIR = ''/nexus-data/log''"

text \<open>A \<open>for\<close> loop whose body can raise: the first exception ends the loop.\<close>

fun for_each :: "('a \<Rightarrow> 's \<Rightarrow> error + 's) \<Rightarrow> 'a list \<Rightarrow> 's \<Rightarrow> error + 's" where
  "for_each body [] st = Inr st"
| "for_each body (x # xs) st =
     (case body x st of Inl e \<Rightarrow> Inl e | Inr st' \<Rightarrow> for_each body xs st')"

section \<open>The line filter\<close>

text \<open>
  \<open>iter_log_file\<close> is a generator: the result is the lines it yields, in order, and
  the exception that ends it, if one does. The consumer handles every yielded line
  before the generator reads on, so an exception of the generator comes after the
  yielded lines have been handled.
\<close>

fun iter_lines :: "string list \<Rightarrow> datetime \<Rightarrow> string list \<times> error option" where
  "iter_lines [] cutoff = ([], None)"
| "iter_lines (line # rest) cutoff =
     (case parse_line_time line of
        Inl e \<Rightarrow> ([], Some e)
      | Inr None \<Rightarrow> iter_lines rest cutoff
      | Inr (Some ts) \<Rightarrow>
          (if cutoff \<le> ts
           then (case iter_lines rest cutoff of (ys, stop) \<Rightarrow> (line # ys, stop))
           else iter_lines rest cutoff))"

definition iter_log_file :: "env \<Rightarrow> string \<Rightarrow> datetime \<Rightarrow> string list \<times> error option" where
  "iter_log_file e path cutoff =
     (case files e path of
        None \<Rightarrow> ([], Some FileNotFoundError)
      | Some lines \<Rightarrow> iter_lines lines cutoff)"

section \<open>The aggregation\<close>

text \<open>The \<open>try\<close> block of the loop body: any exception in it is swallowed.\<close>

definition count_request :: "string \<Rightarrow> metrics \<Rightarrow> metrics" where
  "count_request line st =
     (case split_on (CHR 0x22) line of
        q0 # req # qs \<Rightarrow>
          (case split_ws req of
             [method, path, proto] \<Rightarrow>
               (let st1 = st\<lparr>by_endpoint := counter_inc (by_endpoint st) path\<rparr>;
                    grp = ''/'' @ join ''/'' (take 2 (drop 1 (split_on CHR ''/'' path)));
                    st2 = (if startswith path ''/repository/''
                           then st1\<lparr>by_repo := counter_inc (by_repo st1) grp\<rparr> else st1)
                in if startswith path ''/service/''
                   then st2\<lparr>by_service := counter_inc (by_service st2) grp\<rparr> else st2)
           | _ \<Rightarrow> st)
      | _ \<Rightarrow> st)"

definition count_flags :: "string list \<Rightarrow> string \<Rightarrow> metrics \<Rightarrow> metrics" where
  "count_flags flags line st =
     foldl (\<lambda>s flag. if contains line flag
                      then s\<lparr>custom_flags := counter_inc (custom_flags s) flag\<rparr> else s)
       st flags"

text \<open>
  The loop body, which the source has twice, word for word: once for the dated files
  and once for the live file. \<open>parts[0]\<close> and \<open>parts[2]\<close> raise IndexError when the
  line has too few tokens.
\<close>

definition count_line :: "string list \<Rightarrow> string \<Rightarrow> metrics \<Rightarrow> error + metrics" where
  "count_line flags line st =
     (let parts = split_ws line
      in if length parts \<le> 2 then Inl IndexError
         else
           (let ip = parts ! 0;
                user = parts ! 2;
                status = (if length parts > 8 then parts ! 8 else []);
                st1 = st\<lparr>total := total st + 1,
                         by_ip := counter_inc (by_ip st) ip,
                         by_user := counter_inc (by_user st) user,
                         by_status := counter_inc (by_status st) status\<rparr>;
                st2 = count_request line st1
            in case parse_line_time line of
                 Inl e \<Rightarrow> Inl e
               | Inr None \<Rightarrow> Inr (count_flags flags line st2)
               | Inr (Some ts) \<Rightarrow>
                   Inr (count_flags flags line
                          (st2\<lparr>by_hour := counter_inc (by_hour st2) (zero_pad 2 (hour_of ts))\<rparr>))))"

definition scan_file :: "env \<Rightarrow> datetime \<Rightarrow> string list \<Rightarrow> string \<Rightarrow> metrics \<Rightarrow> error + metrics" where
  "scan_file e cutoff flags p st =
     (case iter_log_file e p cutoff of
        (ys, stop) \<Rightarrow>
          (case for_each (count_line flags) ys st of
             Inl err \<Rightarrow> Inl err
           | Inr st' \<Rightarrow> (case stop of None \<Rightarrow> Inr st' | Some err \<Rightarrow> Inl err)))"

definition scan_if_exists :: "env \<Rightarrow> datetime \<Rightarrow> string list \<Rightarrow> string \<Rightarrow> metrics \<Rightarrow> error + metrics" where
  "scan_if_exists e cutoff flags p st =
     (if files e p \<noteq> None then scan_file e cutoff flags p st else Inr st)"

definition scan_date :: "env \<Rightarrow> datetime \<Rightarrow> string list \<Rightarrow> string \<Rightarrow> metrics \<Rightarrow> error + metrics" where
  "scan_date e cutoff flags d st =
     for_each (\<lambda>suffix. scan_if_exists e cutoff flags (LOG_DIR @ ''/request-'' @ d @ suffix))
       [''.log.gz'', ''.log''] st"

text \<open>The \<open>while\<close> loop that collects the dates; \<open>dates\<close> is a set, kept without
  duplicates. Adding a day to the last day of year 9999 raises OverflowError.\<close>

function dates_loop :: "int \<Rightarrow> int \<Rightarrow> string list \<Rightarrow> error + string list" where
  "dates_loop day today dates =
     (if day \<le> today
      then (if day + 1 \<le> MAXORDINAL
            then dates_loop (day + 1) today (List.insert (strftime_ymd day) dates)
            else Inl OverflowError)
      else Inr dates)"
  by pat_completeness auto
termination
  by (relation "measure (\<lambda>(day, today, dates). nat (today + 1 - day))") auto

definition load_flags :: "env \<Rightarrow> string list" where
  "load_flags e =
     (case files e ''/opt/scripts/flags.txt'' of
        None \<Rightarrow> []
      | Some ls \<Rightarrow> filter (\<lambda>l. l \<noteq> []) (map strip ls))"

definition collect_metrics :: "env \<Rightarrow> int \<Rightarrow> error + metrics" where
  "collect_metrics e window_hours =
     (case minus_hours (now e) window_hours of
        Inl err \<Rightarrow> Inl err
      | Inr cutoff \<Rightarrow>
          (case dates_loop (date_of cutoff) (date_of (now e)) [] of
             Inl err \<Rightarrow> Inl err
           | Inr dates \<Rightarrow>
               (let flags = load_flags e
                in case for_each (scan_date e cutoff flags) (sort dates) no_metrics of
                     Inl err \<Rightarrow> Inl err
                   | Inr st \<Rightarrow> scan_if_exists e cutoff flags (LOG_DIR @ ''/request.log'') st)))"

section \<open>The export\<close>

text \<open>
  The registry that \<open>export_metrics\<close> fills, before it is rendered as text: two plain
  values, and for each labelled gauge its series, label value and value, in the order in
  which \<open>labels(...).set(...)\<close> made them. Rendering the registry is the metrics
  library's work.
\<close>

record registry =
  nexus_exporter_api_requests_total :: nat
  nexus_exporter_api_requests_total_last_24h :: nat
  nexus_exporter_requests_by_user :: counter
  nexus_exporter_api_requests_by_endpoint :: counter
  nexus_exporter_api_requests_by_repository :: counter
  nexus_exporter_api_requests_by_service :: counter
  nexus_exporter_api_requests_by_source_ip :: counter
  nexus_exporter_api_requests_by_hour :: counter
  nexus_exporter_api_status_code_total :: counter
  nexus_exporter_api_custom_flag_matches :: counter

text \<open>\<open>g.labels(k).set(v)\<close>: the series of \<open>k\<close> is made on first use.\<close>

fun gauge_set :: "counter \<Rightarrow> string \<Rightarrow> nat \<Rightarrow> counter" where
  "gauge_set [] k v = [(k, v)]"
| "gauge_set ((k', n) # g) k v = (if k' = k then (k', v) # g else (k', n) # gauge_set g k v)"

definition set_series :: "counter \<Rightarrow> counter" where
  "set_series items = foldl (\<lambda>g kv. gauge_set g (fst kv) (snd kv)) [] items"

definition export_metrics :: "env \<Rightarrow> string \<Rightarrow> error + registry" where
  "export_metrics e window =
     (case py_int (rstrip window ''h'') of
        Inl err \<Rightarrow> Inl err
      | Inr hours \<Rightarrow>
          (case collect_metrics e hours of
             Inl err \<Rightarrow> Inl err
           | Inr data \<Rightarrow>
               (case collect_metrics e 24 of
                  Inl err \<Rightarrow> Inl err
                | Inr data24 \<Rightarrow>
                    Inr \<lparr>nexus_exporter_api_requests_total = total data,
                         nexus_exporter_api_requests_total_last_24h = total data24,
                         nexus_exporter_requests_by_user = set_series (by_user data),
                         nexus_exporter_api_requests_by_endpoint =
                           set_series (most_common 50 (by_endpoint data)),
                         nexus_exporter_api_requests_by_repository = set_series (by_repo data),
                         nexus_exporter_api_requests_by_service = set_series (by_service data),
                         nexus_exporter_api_requests_by_source_ip = set_series (by_ip data),
                         nexus_exporter_api_requests_by_hour = set_series (by_hour data),
                         nexus_exporter_api_status_code_total = set_series (by_status data),
                         nexus_exporter_api_custom_flag_matches =
                           set_series (custom_flags data)\<rparr>)))"

section \<open>Notions used to state the properties\<close>

text \<open>A line is in the window when its timestamp is extracted and is not before the cutoff.\<close>

definition in_window :: "datetime \<Rightarrow> string \<Rightarrow> bool" where
  "in_window cutoff line =
     (case parse_line_time line of Inr (Some ts) \<Rightarrow> cutoff \<le> ts | _ \<Rightarrow> False)"

definition hits :: "env \<Rightarrow> datetime \<Rightarrow> string \<Rightarrow> nat" where
  "hits e cutoff p =
     (case files e p of None \<Rightarrow> 0 | Some lines \<Rightarrow> length (filter (in_window cutoff) lines))"

definition date_hits :: "env \<Rightarrow> datetime \<Rightarrow> string \<Rightarrow> nat" where
  "date_hits e cutoff d =
     hits e cutoff (LOG_DIR @ ''/request-'' @ d @ ''.log.gz'')
     + hits e cutoff (LOG_DIR @ ''/request-'' @ d @ ''.log'')"

definition sums_agree :: "metrics \<Rightarrow> bool" where
  "sums_agree st =
     (values_sum (by_status st) = total st \<and> values_sum (by_user st) = total st
      \<and> values_sum (by_ip st) = total st \<and> values_sum (by_hour st) = total st
      \<and> values_sum (by_endpoint st) \<le> total st)"

definition keys_distinct :: "metrics \<Rightarrow> bool" where
  "keys_distinct st =
     (distinct (map fst (by_user st)) \<and> distinct (map fst (by_endpoint st))
      \<and> distinct (map fst (by_repo st)) \<and> distinct (map fst (by_service st))
      \<and> distinct (map fst (by_ip st)) \<and> distinct (map fst (by_hour st))
      \<and> distinct (map fst (by_status st)) \<and> distinct (map fst (custom_flags st)))"

definition window_dates :: "env \<Rightarrow> datetime \<Rightarrow> string set" where
  "window_dates e cutoff = strftime_ymd ` {date_of cutoff..date_of (now e)}"

section \<open>Example inputs\<close>

definition scenario_line :: string where
  "scenario_line =
     ''10.0.0.1 - alice [01/Jan/2024:23:59:59 +0000] \"GET /repository/maven-releases/foo HTTP/1.1\" 200 123''"

definition early_line :: string where
  "early_line = ''10.0.0.2 - bob [01/Jan/2024:10:00:00 +0000]''"

definition example_env :: env where
  "example_env =
     \<lparr>now = (738887 * 86400 + 1800) * 1000000,
      files = [''/nexus-data/log/request-2024-01-01.log'' \<mapsto> [early_line, scenario_line]]\<rparr>"

definition short_env :: env where
  "short_env =
     \<lparr>now = (738887 * 86400 + 1800) * 1000000,
      files = [''/nexus-data/log/request-2024-01-01.log'' \<mapsto> [''10.0.0.3 [01/Jan/2024:23:59:59'']]\<rparr>"

definition bad_month_env :: env where
  "bad_month_env =
     \<lparr>now = (738887 * 86400 + 1800) * 1000000,
      files = [''/nexus-data/log/request.log'' \<mapsto> [''10.0.0.4 - carol [01/Foo/2024:23:59:59 +0000]'']]\<rparr>"

definition many_env :: env where
  "many_env =
     \<lparr>now = (738887 * 86400 + 1800) * 1000000,
      files = [''/nexus-data/log/request.log'' \<mapsto>
                 map (\<lambda>n. ''10.0.0.1 - alice [02/Jan/2024:00:10:00 +0000] \"GET /p'' @ decimal n @ '' HTTP/1.1\" 200'')
                   ([1..51] @ [51])]\<rparr>"

definition example_cutoff :: datetime where
  "example_cutoff = (738886 * 86400 + 86399) * 1000000"

section \<open>Loops and counters\<close>

declare dates_loop.simps [simp del]

declare decimal.simps [simp del]

lemma values_sum_counter_inc: "values_sum (counter_inc c k) = Suc (values_sum c)"
  by (induction c k rule: counter_inc.induct) (simp_all add: values_sum_def)

lemma keys_counter_inc:
  "map fst (counter_inc c k) = (if k \<in> set (map fst c) then map fst c else map fst c @ [k])"
  by (induction c k rule: counter_inc.induct) auto

lemma distinct_counter_inc: "distinct (map fst c) \<Longrightarrow> distinct (map fst (counter_inc c k))"
  by (simp add: keys_counter_inc)

lemma for_each_inv:
  assumes "for_each body xs st = Inr st'" and "P st"
    and "\<And>x s s'. x \<in> set xs \<Longrightarrow> P s \<Longrightarrow> body x s = Inr s' \<Longrightarrow> P s'"
  shows "P st'"
  using assms
proof (induction xs arbitrary: st)
  case Nil
  then show ?case by simp
next
  case (Cons x xs)
  from Cons.prems(1) obtain s1 where b: "body x st = Inr s1" and r: "for_each body xs s1 = Inr st'"
    by (auto split: sum.splits)
  have "P s1" using Cons.prems(3) [of x st s1] Cons.prems(2) b by simp
  show ?case
  proof (rule Cons.IH [OF r \<open>P s1\<close>])
    fix y s s'
    assume "y \<in> set xs" "P s" "body y s = Inr s'"
    then show "P s'" using Cons.prems(3) [of y s s'] by simp
  qed
qed

text \<open>What the try block and the flag loop leave alone.\<close>

lemma count_flags_fields:
  "total (count_flags flags line st) = total st"
  "by_ip (count_flags flags line st) = by_ip st"
  "by_user (count_flags flags line st) = by_user st"
  "by_status (count_flags flags line st) = by_status st"
  "by_endpoint (count_flags flags line st) = by_endpoint st"
  "by_repo (count_flags flags line st) = by_repo st"
  "by_service (count_flags flags line st) = by_service st"
  "by_hour (count_flags flags line st) = by_hour st"
  unfolding count_flags_def
  by (induction flags arbitrary: st; simp)+

lemma count_flags_distinct:
  "distinct (map fst (custom_flags st)) \<Longrightarrow> distinct (map fst (custom_flags (count_flags flags line st)))"
  unfolding count_flags_def
  by (induction flags arbitrary: st) (simp_all add: distinct_counter_inc)

lemma count_request_fields:
  "total (count_request line st) = total st"
  "by_ip (count_request line st) = by_ip st"
  "by_user (count_request line st) = by_user st"
  "by_status (count_request line st) = by_status st"
  "by_hour (count_request line st) = by_hour st"
  "custom_flags (count_request line st) = custom_flags st"
  unfolding count_request_def
  by (simp_all add: Let_def split: list.splits)

lemma count_request_endpoint:
  "values_sum (by_endpoint (count_request line st)) = values_sum (by_endpoint st)
   \<or> values_sum (by_endpoint (count_request line st)) = Suc (values_sum (by_endpoint st))"
  unfolding count_request_def
  by (simp add: Let_def values_sum_counter_inc split: list.splits)

lemma count_request_distinct:
  "distinct (map fst (by_endpoint st)) \<Longrightarrow> distinct (map fst (by_endpoint (count_request line st)))"
  "distinct (map fst (by_repo st)) \<Longrightarrow> distinct (map fst (by_repo (count_request line st)))"
  "distinct (map fst (by_service st)) \<Longrightarrow> distinct (map fst (by_service (count_request line st)))"
  unfolding count_request_def
  by (simp_all add: Let_def distinct_counter_inc split: list.splits)

lemma count_line_effect:
  assumes "count_line flags line st = Inr st'"
  shows "total st' = Suc (total st)"
    and "values_sum (by_ip st') = Suc (values_sum (by_ip st))"
    and "values_sum (by_user st') = Suc (values_sum (by_user st))"
    and "values_sum (by_status st') = Suc (values_sum (by_status st))"
    and "values_sum (by_endpoint st') = values_sum (by_endpoint st)
         \<or> values_sum (by_endpoint st') = Suc (values_sum (by_endpoint st))"
  using assms count_request_endpoint [of line "st\<lparr>total := total st + 1,
                         by_ip := counter_inc (by_ip st) (split_ws line ! 0),
                         by_user := counter_inc (by_user st) (split_ws line ! 2),
                         by_status := counter_inc (by_status st) (if length (split_ws line) > 8 then split_ws line ! 8 else [])\<rparr>"]
  unfolding count_line_def
  by (auto simp: Let_def count_flags_fields count_request_fields values_sum_counter_inc
           split: if_splits sum.splits option.splits)

lemma count_line_hour:
  assumes "count_line flags line st = Inr st'" and "parse_line_time line = Inr (Some ts)"
  shows "values_sum (by_hour st') = Suc (values_sum (by_hour st))"
  using assms unfolding count_line_def
  by (auto simp: Let_def count_flags_fields count_request_fields values_sum_counter_inc
           split: if_splits)

lemma in_window_iff:
  "in_window cutoff line \<longleftrightarrow> (\<exists>ts. parse_line_time line = Inr (Some ts) \<and> cutoff \<le> ts)"
  by (auto simp: in_window_def split: sum.splits option.splits)

lemma iter_lines_yields:
  "set (fst (iter_lines lines cutoff)) \<subseteq> {l \<in> set lines. in_window cutoff l}"
  by (induction lines) (auto simp: in_window_def split: sum.splits option.splits prod.splits)

lemma iter_lines_complete:
  "snd (iter_lines lines cutoff) = None \<Longrightarrow> fst (iter_lines lines cutoff) = filter (in_window cutoff) lines"
  by (induction lines) (auto simp: in_window_def split: sum.splits option.splits prod.splits if_splits)

lemma count_line_sums:
  assumes "count_line flags line st = Inr st'" and "in_window cutoff line" and "sums_agree st"
  shows "sums_agree st'"
proof -
  from assms(2) obtain ts where ts: "parse_line_time line = Inr (Some ts)"
    by (auto simp: in_window_iff)
  show ?thesis
    using count_line_effect [OF assms(1)] count_line_hour [OF assms(1) ts] assms(3)
    by (auto simp: sums_agree_def)
qed

lemma count_line_distinct:
  assumes "count_line flags line st = Inr st'" and "keys_distinct st"
  shows "keys_distinct st'"
  using assms unfolding count_line_def keys_distinct_def
  by (auto simp: Let_def count_flags_fields count_request_fields count_flags_distinct
                 count_request_distinct distinct_counter_inc
           split: if_splits sum.splits option.splits)

lemma for_each_count_line_total:
  "for_each (count_line flags) ys st = Inr st' \<Longrightarrow> total st' = total st + length ys"
proof (induction ys arbitrary: st)
  case Nil
  then show ?case by simp
next
  case (Cons y ys)
  from Cons.prems obtain s1 where b: "count_line flags y st = Inr s1"
    and r: "for_each (count_line flags) ys s1 = Inr st'"
    by (auto split: sum.splits)
  show ?case using Cons.IH [OF r] count_line_effect(1) [OF b] by simp
qed

lemma scan_file_total:
  assumes "scan_file e cutoff flags p st = Inr st'"
  shows "total st' = total st + hits e cutoff p"
proof -
  obtain ys stop where it: "iter_log_file e p cutoff = (ys, stop)"
    by (cases "iter_log_file e p cutoff")
  from assms it have run: "for_each (count_line flags) ys st = Inr st'" and stop: "stop = None"
    by (auto simp: scan_file_def split: sum.splits option.splits)
  from it stop obtain lines where f: "files e p = Some lines" and il: "iter_lines lines cutoff = (ys, None)"
    by (auto simp: iter_log_file_def split: option.splits)
  have "ys = filter (in_window cutoff) lines"
    using iter_lines_complete [of lines cutoff] il by simp
  then show ?thesis
    using for_each_count_line_total [OF run] f by (simp add: hits_def)
qed

lemma scan_file_inv:
  assumes "scan_file e cutoff flags p st = Inr st'"
  shows "sums_agree st \<Longrightarrow> sums_agree st'" and "keys_distinct st \<Longrightarrow> keys_distinct st'"
proof -
  obtain ys stop where it: "iter_log_file e p cutoff = (ys, stop)"
    by (cases "iter_log_file e p cutoff")
  from assms it have run: "for_each (count_line flags) ys st = Inr st'"
    by (auto simp: scan_file_def split: sum.splits option.splits)
  have win: "in_window cutoff y" if "y \<in> set ys" for y
  proof (cases "files e p")
    case None
    then show ?thesis using it that by (simp add: iter_log_file_def)
  next
    case (Some lines)
    then have "fst (iter_lines lines cutoff) = ys" using it by (simp add: iter_log_file_def)
    then show ?thesis using iter_lines_yields [of lines cutoff] that by auto
  qed
  show "sums_agree st \<Longrightarrow> sums_agree st'"
    using for_each_inv [OF run, of sums_agree] count_line_sums win by blast
  show "keys_distinct st \<Longrightarrow> keys_distinct st'"
    using for_each_inv [OF run, of keys_distinct] count_line_distinct by blast
qed

lemma scan_if_exists_total:
  "scan_if_exists e cutoff flags p st = Inr st' \<Longrightarrow> total st' = total st + hits e cutoff p"
  using scan_file_total [of e cutoff flags p st st']
  by (auto simp: scan_if_exists_def hits_def split: if_splits)

lemma scan_if_exists_inv:
  assumes "scan_if_exists e cutoff flags p st = Inr st'"
  shows "sums_agree st \<Longrightarrow> sums_agree st'" and "keys_distinct st \<Longrightarrow> keys_distinct st'"
  using assms scan_file_inv [of e cutoff flags p st st']
  by (auto simp: scan_if_exists_def split: if_splits)

lemma scan_date_total:
  assumes "scan_date e cutoff flags d st = Inr st'"
  shows "total st' = total st + date_hits e cutoff d"
proof -
  from assms obtain s1 where
    a: "scan_if_exists e cutoff flags (LOG_DIR @ ''/request-'' @ d @ ''.log.gz'') st = Inr s1" and
    b: "scan_if_exists e cutoff flags (LOG_DIR @ ''/request-'' @ d @ ''.log'') s1 = Inr st'"
    by (auto simp: scan_date_def split: sum.splits)
  show ?thesis
    using scan_if_exists_total [OF a] scan_if_exists_total [OF b] by (simp add: date_hits_def)
qed

lemma scan_date_inv:
  assumes "scan_date e cutoff flags d st = Inr st'"
  shows "sums_agree st \<Longrightarrow> sums_agree st'" and "keys_distinct st \<Longrightarrow> keys_distinct st'"
proof -
  from assms obtain s1 where
    a: "scan_if_exists e cutoff flags (LOG_DIR @ ''/request-'' @ d @ ''.log.gz'') st = Inr s1" and
    b: "scan_if_exists e cutoff flags (LOG_DIR @ ''/request-'' @ d @ ''.log'') s1 = Inr st'"
    by (auto simp: scan_date_def split: sum.splits)
  show "sums_agree st \<Longrightarrow> sums_agree st'"
    using scan_if_exists_inv(1) [OF a] scan_if_exists_inv(1) [OF b] by simp
  show "keys_distinct st \<Longrightarrow> keys_distinct st'"
    using scan_if_exists_inv(2) [OF a] scan_if_exists_inv(2) [OF b] by simp
qed

lemma for_each_scan_date_total:
  "for_each (scan_date e cutoff flags) ds st = Inr st'
   \<Longrightarrow> total st' = total st + sum_list (map (date_hits e cutoff) ds)"
proof (induction ds arbitrary: st)
  case Nil
  then show ?case by simp
next
  case (Cons d ds)
  from Cons.prems obtain s1 where b: "scan_date e cutoff flags d st = Inr s1"
    and r: "for_each (scan_date e cutoff flags) ds s1 = Inr st'"
    by (auto split: sum.splits)
  show ?case using Cons.IH [OF r] scan_date_total [OF b] by simp
qed

lemma for_each_scan_date_inv:
  assumes "for_each (scan_date e cutoff flags) ds st = Inr st'"
  shows "sums_agree st \<Longrightarrow> sums_agree st'" and "keys_distinct st \<Longrightarrow> keys_distinct st'"
proof -
  show "sums_agree st \<Longrightarrow> sums_agree st'"
    using for_each_inv [OF assms, of sums_agree] scan_date_inv(1) by blast
  show "keys_distinct st \<Longrightarrow> keys_distinct st'"
    using for_each_inv [OF assms, of keys_distinct] scan_date_inv(2) by blast
qed

lemma dates_loop_result:
  "dates_loop day today acc = Inr ds \<Longrightarrow> distinct acc
   \<Longrightarrow> distinct ds \<and> set ds = set acc \<union> strftime_ymd ` {day..today}"
proof (induction day today acc rule: dates_loop.induct)
  case (1 day today dates)
  show ?case
  proof (cases "day \<le> today")
    case False
    then have "dates_loop day today dates = Inr dates"
      by (subst dates_loop.simps) simp
    with "1.prems" False show ?thesis by simp
  next
    case True
    have "dates_loop day today dates =
            (if day + 1 \<le> MAXORDINAL
             then dates_loop (day + 1) today (List.insert (strftime_ymd day) dates)
             else Inl OverflowError)"
      using True by (subst dates_loop.simps) simp
    with "1.prems"(1) have ok: "day + 1 \<le> MAXORDINAL"
      and r: "dates_loop (day + 1) today (List.insert (strftime_ymd day) dates) = Inr ds"
      by (simp_all split: if_splits)
    have "distinct (List.insert (strftime_ymd day) dates)"
      using "1.prems"(2) by simp
    from "1.IH" [OF True ok r this]
    have d: "distinct ds"
      and s: "set ds = set (List.insert (strftime_ymd day) dates) \<union> strftime_ymd ` {day + 1..today}"
      by simp_all
    have "{day..today} = insert day {day + 1..today}" using True by auto
    then show ?thesis using d s by auto
  qed
qed

lemma sum_list_insort:
  "sum_list (map f (insort x xs)) = f x + sum_list (map (f::'a::linorder \<Rightarrow> nat) xs)"
  by (induction xs) auto

lemma sum_list_sort:
  "sum_list (map f (sort xs)) = sum_list (map (f::'a::linorder \<Rightarrow> nat) xs)"
  by (induction xs) (auto simp: sum_list_insort)

lemma sum_list_sort_distinct:
  "distinct xs \<Longrightarrow> sum_list (map f (sort xs)) = sum (f::'a::linorder \<Rightarrow> nat) (set xs)"
  by (simp add: sum_list_sort sum_list_distinct_conv_sum_set)

lemma collect_metrics_total:
  assumes "collect_metrics e w = Inr r"
  shows "minus_hours (now e) w = Inr (now e - w * US_PER_HOUR)"
    and "total r = sum (date_hits e (now e - w * US_PER_HOUR)) (window_dates e (now e - w * US_PER_HOUR))
                   + hits e (now e - w * US_PER_HOUR) (LOG_DIR @ ''/request.log'')"
proof -
  let ?c = "now e - w * US_PER_HOUR"
  from assms show mh: "minus_hours (now e) w = Inr ?c"
    by (auto simp: collect_metrics_def minus_hours_def Let_def split: sum.splits if_splits)
  from assms mh obtain ds st where
    dl: "dates_loop (date_of ?c) (date_of (now e)) [] = Inr ds" and
    fe: "for_each (scan_date e ?c (load_flags e)) (sort ds) no_metrics = Inr st" and
    lv: "scan_if_exists e ?c (load_flags e) (LOG_DIR @ ''/request.log'') st = Inr r"
    by (auto simp: collect_metrics_def Let_def split: sum.splits)
  from dates_loop_result [OF dl] have d: "distinct ds" and s: "set ds = window_dates e ?c"
    by (simp_all add: window_dates_def)
  have "total st = sum (date_hits e ?c) (window_dates e ?c)"
    using for_each_scan_date_total [OF fe] sum_list_sort_distinct [OF d, of "date_hits e ?c"] s
    by (simp add: no_metrics_def)
  then show "total r = sum (date_hits e ?c) (window_dates e ?c) + hits e ?c (LOG_DIR @ ''/request.log'')"
    using scan_if_exists_total [OF lv] by simp
qed

lemma collect_metrics_inv:
  assumes "collect_metrics e w = Inr r"
  shows "sums_agree r" and "keys_distinct r"
proof -
  from assms obtain c ds st where
    fe: "for_each (scan_date e c (load_flags e)) (sort ds) no_metrics = Inr st" and
    lv: "scan_if_exists e c (load_flags e) (LOG_DIR @ ''/request.log'') st = Inr r"
    by (auto simp: collect_metrics_def Let_def split: sum.splits)
  have "sums_agree no_metrics" "keys_distinct no_metrics"
    by (simp_all add: sums_agree_def keys_distinct_def no_metrics_def values_sum_def)
  then have "sums_agree st" "keys_distinct st"
    using for_each_scan_date_inv [OF fe] by simp_all
  then show "sums_agree r" "keys_distinct r"
    using scan_if_exists_inv [OF lv] by simp_all
qed

lemma hits_mono: "c2 \<le> c1 \<Longrightarrow> hits e c1 p \<le> hits e c2 p"
proof -
  assume le: "c2 \<le> c1"
  have "length (filter (in_window c1) ls) \<le> length (filter (in_window c2) ls)" for ls
  proof (induction ls)
    case Nil
    then show ?case by simp
  next
    case (Cons l ls)
    have "in_window c1 l \<Longrightarrow> in_window c2 l" using le by (auto simp: in_window_iff)
    then show ?case using Cons by auto
  qed
  then show ?thesis by (simp add: hits_def split: option.splits)
qed

lemma date_hits_mono: "c2 \<le> c1 \<Longrightarrow> date_hits e c1 d \<le> date_hits e c2 d"
  by (simp add: date_hits_def add_mono hits_mono)

lemma window_dates_mono: "c2 \<le> c1 \<Longrightarrow> window_dates e c1 \<subseteq> window_dates e c2"
proof -
  assume "c2 \<le> c1"
  then have "date_of c2 \<le> date_of c1"
    by (simp add: date_of_def US_PER_DAY_def zdiv_mono1)
  then show ?thesis by (auto simp: window_dates_def)
qed

lemma collect_total_mono:
  assumes "collect_metrics e w1 = Inr r1" and "collect_metrics e w2 = Inr r2" and "w1 \<le> w2"
  shows "total r1 \<le> total r2"
proof -
  let ?c1 = "now e - w1 * US_PER_HOUR" and ?c2 = "now e - w2 * US_PER_HOUR"
  have le: "?c2 \<le> ?c1" using assms(3) by (simp add: US_PER_HOUR_def)
  have fin: "finite (window_dates e ?c2)" by (simp add: window_dates_def)
  have "sum (date_hits e ?c1) (window_dates e ?c1) \<le> sum (date_hits e ?c2) (window_dates e ?c1)"
    by (rule sum_mono) (rule date_hits_mono [OF le])
  also have "\<dots> \<le> sum (date_hits e ?c2) (window_dates e ?c2)"
    by (rule sum_mono2 [OF fin window_dates_mono [OF le]]) simp
  finally show ?thesis
    using collect_metrics_total(2) [OF assms(1)] collect_metrics_total(2) [OF assms(2)]
      hits_mono [OF le, of e "LOG_DIR @ ''/request.log''"]
    by simp
qed

lemma gauge_set_new: "k \<notin> fst ` set g \<Longrightarrow> gauge_set g k v = g @ [(k, v)]"
  by (induction g) auto

lemma set_series_from:
  "distinct (map fst (g @ xs))
   \<Longrightarrow> foldl (\<lambda>g kv. gauge_set g (fst kv) (snd kv)) g xs = g @ xs"
proof (induction xs arbitrary: g)
  case Nil
  then show ?case by simp
next
  case (Cons x xs)
  have new: "fst x \<notin> fst ` set g" using Cons.prems by auto
  have "distinct (map fst ((g @ [x]) @ xs))" using Cons.prems by simp
  from Cons.IH [OF this] show ?case
    by (simp add: gauge_set_new [OF new])
qed

lemma set_series_distinct: "distinct (map fst xs) \<Longrightarrow> set_series xs = xs"
  using set_series_from [of "[]" xs] by (simp add: set_series_def)

lemma most_common_length: "length (most_common n c) = min n (length c)"
  by (simp add: most_common_def min.commute)

lemma most_common_subset: "set (most_common n c) \<subseteq> set c"
  using set_take_subset [of n "sort_key (\<lambda>kv. - int (snd kv)) c"]
  by (simp add: most_common_def)

lemma most_common_distinct:
  assumes "distinct (map fst c)"
  shows "distinct (map fst (most_common n c))"
proof -
  let ?s = "sort_key (\<lambda>kv. - int (snd kv)) c"
  from assms have "distinct c" and "inj_on fst (set c)"
    by (simp_all add: distinct_map)
  then have "distinct (map fst ?s)" by (simp add: distinct_map)
  then have "distinct (take n (map fst ?s))" by (rule distinct_take)
  then show ?thesis by (simp add: most_common_def take_map)
qed

lemma most_common_highest:
  assumes "a \<in> set (most_common n c)" and "b \<in> set c" and "b \<notin> set (most_common n c)"
  shows "snd b \<le> snd a"
proof -
  let ?f = "\<lambda>kv::string \<times> nat. - int (snd kv)"
  let ?s = "sort_key ?f c"
  have "sorted (map ?f ?s)" by (rule sorted_sort_key)
  then have "sorted (map ?f (take n ?s) @ map ?f (drop n ?s))"
    by (simp flip: map_append)
  then have ord: "\<forall>x \<in> set (take n ?s). \<forall>y \<in> set (drop n ?s). ?f x \<le> ?f y"
    by (auto simp: sorted_append)
  have "set c = set (take n ?s) \<union> set (drop n ?s)"
    using set_append [of "take n ?s" "drop n ?s"] by simp
  with assms(2,3) have "b \<in> set (drop n ?s)" by (auto simp: most_common_def)
  with ord assms(1) show ?thesis by (fastforce simp: most_common_def)
qed

section \<open>Evaluated examples\<close>

text \<open>
  The example inputs, evaluated. The clock of every example stands at 2024-01-02 00:30:00;
  \<open>example_env\<close> holds the archive of 2024-01-01 with a line of 10:00:00 that has five
  tokens and no quoted request, and a complete line of 23:59:59.
\<close>

lemma example_env_1:
  "collect_metrics example_env 1 =
   Inr \<lparr>total = 1, by_user = [(''alice'', 1)],
        by_endpoint = [(''/repository/maven-releases/foo'', 1)],
        by_repo = [(''/repository/maven-releases'', 1)], by_service = [],
        by_ip = [(''10.0.0.1'', 1)], by_hour = [(''23'', 1)],
        by_status = [(''200'', 1)], custom_flags = []\<rparr>"
  by code_simp

lemma example_env_24:
  "collect_metrics example_env 24 =
   Inr \<lparr>total = 2, by_user = [(''bob'', 1), (''alice'', 1)],
        by_endpoint = [(''/repository/maven-releases/foo'', 1)],
        by_repo = [(''/repository/maven-releases'', 1)], by_service = [],
        by_ip = [(''10.0.0.2'', 1), (''10.0.0.1'', 1)], by_hour = [(''10'', 1), (''23'', 1)],
        by_status = [([], 1), (''200'', 1)], custom_flags = []\<rparr>"
  by code_simp

lemma example_export_1h:
  "export_metrics example_env ''1h'' =
   Inr \<lparr>nexus_exporter_api_requests_total = 1,
        nexus_exporter_api_requests_total_last_24h = 2,
        nexus_exporter_requests_by_user = [(''alice'', 1)],
        nexus_exporter_api_requests_by_endpoint = [(''/repository/maven-releases/foo'', 1)],
        nexus_exporter_api_requests_by_repository = [(''/repository/maven-releases'', 1)],
        nexus_exporter_api_requests_by_service = [],
        nexus_exporter_api_requests_by_source_ip = [(''10.0.0.1'', 1)],
        nexus_exporter_api_requests_by_hour = [(''23'', 1)],
        nexus_exporter_api_status_code_total = [(''200'', 1)],
        nexus_exporter_api_custom_flag_matches = []\<rparr>"
  by code_simp

lemma example_export_24h:
  "export_metrics example_env ''24h'' =
   Inr \<lparr>nexus_exporter_api_requests_total = 2,
        nexus_exporter_api_requests_total_last_24h = 2,
        nexus_exporter_requests_by_user = [(''bob'', 1), (''alice'', 1)],
        nexus_exporter_api_requests_by_endpoint = [(''/repository/maven-releases/foo'', 1)],
        nexus_exporter_api_requests_by_repository = [(''/repository/maven-releases'', 1)],
        nexus_exporter_api_requests_by_service = [],
        nexus_exporter_api_requests_by_source_ip = [(''10.0.0.2'', 1), (''10.0.0.1'', 1)],
        nexus_exporter_api_requests_by_hour = [(''10'', 1), (''23'', 1)],
        nexus_exporter_api_status_code_total = [([], 1), (''200'', 1)],
        nexus_exporter_api_custom_flag_matches = []\<rparr>"
  by code_simp

lemma example_file:
  "files example_env ''/nexus-data/log/request-2024-01-01.log'' = Some [early_line, scenario_line]"
  by (simp add: example_env_def)

lemma example_iter:
  "iter_log_file example_env ''/nexus-data/log/request-2024-01-01.log'' example_cutoff
   = ([scenario_line], None)"
  by code_simp

lemma example_times:
  "parse_line_time scenario_line = Inr (Some example_cutoff)"
  "parse_line_time early_line = Inr (Some ((738886 * 86400 + 36000) * 1000000))"
  by code_simp+

lemma early_line_tokens: "split_ws early_line = [''10.0.0.2'', ''-'', ''bob'', ''[01/Jan/2024:10:00:00'', ''+0000]'']"
  by code_simp

lemma early_line_in_window: "in_window 0 early_line"
  by code_simp

lemma many_env_collect:
  "collect_metrics many_env 1 =
   Inr \<lparr>total = 52, by_user = [(''alice'', 52)],
        by_endpoint = map (\<lambda>n. (''/p'' @ decimal n, if n = 51 then 2 else 1)) [1..51],
        by_repo = [], by_service = [], by_ip = [(''10.0.0.1'', 52)], by_hour = [(''00'', 52)],
        by_status = [(''200'', 52)], custom_flags = []\<rparr>"
  by code_simp

lemma many_env_export:
  "export_metrics many_env ''1h'' =
   Inr \<lparr>nexus_exporter_api_requests_total = 52,
        nexus_exporter_api_requests_total_last_24h = 52,
        nexus_exporter_requests_by_user = [(''alice'', 52)],
        nexus_exporter_api_requests_by_endpoint =
          (''/p51'', 2) # map (\<lambda>n. (''/p'' @ decimal n, 1)) [1..49],
        nexus_exporter_api_requests_by_repository = [],
        nexus_exporter_api_requests_by_service = [],
        nexus_exporter_api_requests_by_source_ip = [(''10.0.0.1'', 52)],
        nexus_exporter_api_requests_by_hour = [(''00'', 52)],
        nexus_exporter_api_status_code_total = [(''200'', 52)],
        nexus_exporter_api_custom_flag_matches = []\<rparr>"
  by code_simp

section \<open>The export, from its result\<close>

lemma export_metrics_result:
  assumes "export_metrics e window = Inr reg"
  obtains hours data data24 where
    "py_int (rstrip window ''h'') = Inr hours"
    "collect_metrics e hours = Inr data"
    "collect_metrics e 24 = Inr data24"
    "reg = \<lparr>nexus_exporter_api_requests_total = total data,
            nexus_exporter_api_requests_total_last_24h = total data24,
            nexus_exporter_requests_by_user = by_user data,
            nexus_exporter_api_requests_by_endpoint = most_common 50 (by_endpoint data),
            nexus_exporter_api_requests_by_repository = by_repo data,
            nexus_exporter_api_requests_by_service = by_service data,
            nexus_exporter_api_requests_by_source_ip = by_ip data,
            nexus_exporter_api_requests_by_hour = by_hour data,
            nexus_exporter_api_status_code_total = by_status data,
            nexus_exporter_api_custom_flag_matches = custom_flags data\<rparr>"
proof -
  from assms obtain hours data data24 where
    h: "py_int (rstrip window ''h'') = Inr hours" and
    d: "collect_metrics e hours = Inr data" and
    d24: "collect_metrics e 24 = Inr data24" and
    r: "reg = \<lparr>nexus_exporter_api_requests_total = total data,
            nexus_exporter_api_requests_total_last_24h = total data24,
            nexus_exporter_requests_by_user = set_series (by_user data),
            nexus_exporter_api_requests_by_endpoint = set_series (most_common 50 (by_endpoint data)),
            nexus_exporter_api_requests_by_repository = set_series (by_repo data),
            nexus_exporter_api_requests_by_service = set_series (by_service data),
            nexus_exporter_api_requests_by_source_ip = set_series (by_ip data),
            nexus_exporter_api_requests_by_hour = set_series (by_hour data),
            nexus_exporter_api_status_code_total = set_series (by_status data),
            nexus_exporter_api_custom_flag_matches = set_series (custom_flags data)\<rparr>"
    by (auto simp: export_metrics_def split: sum.splits)
  from collect_metrics_inv(2) [OF d] have k: "keys_distinct data" .
  then have "set_series (by_user data) = by_user data"
    "set_series (most_common 50 (by_endpoint data)) = most_common 50 (by_endpoint data)"
    "set_series (by_repo data) = by_repo data"
    "set_series (by_service data) = by_service data"
    "set_series (by_ip data) = by_ip data"
    "set_series (by_hour data) = by_hour data"
    "set_series (by_status data) = by_status data"
    "set_series (custom_flags data) = custom_flags data"
    by (simp_all add: keys_distinct_def set_series_distinct most_common_distinct)
  with r have "reg = \<lparr>nexus_exporter_api_requests_total = total data,
            nexus_exporter_api_requests_total_last_24h = total data24,
            nexus_exporter_requests_by_user = by_user data,
            nexus_exporter_api_requests_by_endpoint = most_common 50 (by_endpoint data),
            nexus_exporter_api_requests_by_repository = by_repo data,
            nexus_exporter_api_requests_by_service = by_service data,
            nexus_exporter_api_requests_by_source_ip = by_ip data,
            nexus_exporter_api_requests_by_hour = by_hour data,
            nexus_exporter_api_status_code_total = by_status data,
            nexus_exporter_api_custom_flag_matches = custom_flags data\<rparr>"
    by simp
  with h d d24 that show thesis by blast
qed

lemma export_metrics_second_call:
  assumes "py_int (rstrip window ''h'') = Inr hours" and "collect_metrics e hours = Inr data"
    and "collect_metrics e 24 = Inl err"
  shows "export_metrics e window = Inl err"
  using assms by (simp add: export_metrics_def)

section \<open>The line counter, field by field\<close>

lemma count_line_too_short:
  "length (split_ws line) \<le> 2 \<Longrightarrow> count_line flags line st = Inl IndexError"
  by (simp add: count_line_def)

lemma count_line_fields:
  assumes "count_line flags line st = Inr st'"
  shows "by_status st' = counter_inc (by_status st)
           (if length (split_ws line) > 8 then split_ws line ! 8 else [])"
    and "by_ip st' = counter_inc (by_ip st) (split_ws line ! 0)"
    and "by_user st' = counter_inc (by_user st) (split_ws line ! 2)"
  using assms unfolding count_line_def
  by (auto simp: Let_def count_flags_fields count_request_fields
           split: if_splits sum.splits option.splits)

lemma count_line_returns:
  assumes "in_window cutoff line" and "3 \<le> length (split_ws line)"
  shows "\<exists>st'. count_line flags line st = Inr st'"
proof -
  from assms(1) obtain ts where "parse_line_time line = Inr (Some ts)"
    by (auto simp: in_window_iff)
  with assms(2) show ?thesis by (simp add: count_line_def Let_def)
qed

lemma parse_line_time_no_match:
  "search LOG_PATTERN line = None \<Longrightarrow> parse_line_time line = Inr None"
  by (simp add: parse_line_time_def)

lemma parse_line_time_key_error:
  "search LOG_PATTERN line = Some m \<Longrightarrow> map_of MONTHS (take 3 (drop 4 m)) = None
   \<Longrightarrow> parse_line_time line = Inl KeyError"
  by (simp add: parse_line_time_def)

lemma int_body_ok_last: "int_body_ok b \<Longrightarrow> b \<noteq> [] \<and> is_digit (last b)"
  by (induction b rule: int_body_ok.induct) (auto split: if_splits)

lemma strip_upper_H: "strip (s @ ''H'') = dropWhile is_space s @ ''H''"
proof -
  have n: "\<not> is_space CHR ''H''" by (simp add: is_space_def)
  have "dropWhile is_space (s @ ''H'') = dropWhile is_space s @ ''H''"
    using n by (induction s) auto
  then show ?thesis using n by (simp add: strip_def)
qed

lemma py_int_upper_H: "py_int (s @ ''H'') = Inl ValueError"
proof -
  let ?u = "dropWhile is_space s"
  let ?t = "?u @ ''H''"
  let ?body = "if ?t \<noteq> [] \<and> (hd ?t = CHR ''-'' \<or> hd ?t = CHR ''+'') then tl ?t else ?t"
  have nd: "\<not> is_digit CHR ''H''" by (simp add: is_digit_def)
  have "b = [] \<or> last b = CHR ''H''"
    if "b = (if u @ ''H'' \<noteq> [] \<and> (hd (u @ ''H'') = CHR ''-'' \<or> hd (u @ ''H'') = CHR ''+'')
             then tl (u @ ''H'') else u @ ''H'')" for u b :: string
    using that by (cases u) auto
  then have "?body = [] \<or> last ?body = CHR ''H''" by blast
  then have "\<not> int_body_ok ?body"
    using int_body_ok_last [of ?body] nd by auto
  then show ?thesis
    unfolding py_int_def strip_upper_H Let_def by simp
qed

section \<open>The window text\<close>

text \<open>A window of digits followed by a lower-case \<open>h\<close> is parsed into its hour count.\<close>

lemma digit_facts:
  assumes "is_digit c"
  shows "\<not> is_space c" and "c \<noteq> CHR ''_''" and "c \<noteq> CHR ''-''" and "c \<noteq> CHR ''+''"
    and "c \<noteq> CHR ''h''"
  using assms by (auto simp: is_digit_def is_space_def)

lemma int_body_ok_digits: "ds \<noteq> [] \<Longrightarrow> list_all is_digit ds \<Longrightarrow> int_body_ok ds"
  by (induction ds rule: int_body_ok.induct) (auto simp: digit_facts)

lemma dropWhile_rev_keep: "ds \<noteq> [] \<Longrightarrow> \<not> P (last ds) \<Longrightarrow> dropWhile P (rev ds) = rev ds"
  by (cases ds rule: rev_cases) auto

lemma window_lower_h_parses:
  assumes "ds \<noteq> []" and "list_all is_digit ds" and "length ds \<le> 4300"
  shows "py_int (rstrip (ds @ ''h'') ''h'') = Inr (digits_value ds)"
proof -
  have l: "is_digit (last ds)" and h: "is_digit (hd ds)"
    using assms(1,2) by (simp_all add: list_all_iff)
  have r: "rstrip (ds @ ''h'') ''h'' = ds"
    using dropWhile_rev_keep [OF assms(1), of "\<lambda>c. c = CHR ''h''"] digit_facts(5) [OF l]
    by (simp add: rstrip_def)
  have "dropWhile is_space ds = ds"
    using assms(1) digit_facts(1) [OF h] by (cases ds) auto
  then have s: "strip ds = ds"
    using dropWhile_rev_keep [OF assms(1), of is_space] digit_facts(1) [OF l]
    by (simp add: strip_def)
  have f: "filter (\<lambda>c. c \<noteq> CHR ''_'') ds = ds"
    using assms(2) by (auto simp: list_all_iff digit_facts(2) intro: filter_True)
  show ?thesis
    using assms(1,3) digit_facts(3,4) [OF h] int_body_ok_digits [OF assms(1,2)]
    by (simp add: r py_int_def s f Let_def)
qed

section \<open>The claims\<close>

text \<open>
  C1. The claim: taking the source address, the user and the status code from a line that
  passed the window filter never fails the line. The code guards only the status code:
  \<open>parts[2]\<close> raises IndexError on a line with fewer than three tokens, and the
  exception ends the whole aggregation. Here the archive holds one line of two tokens whose
  timestamp lies in the window.
\<close>

theorem collect_metrics_short_line:
  "collect_metrics short_env 1 = Inl IndexError"
  by code_simp

text \<open>
  C2. The claim: the timestamp extractor returns no value when the month abbreviation of a
  matching fragment is not one of the twelve names. The code looks the month up with
  \<open>MONTHS[mon]\<close>, which raises KeyError; the exception leaves the extractor, the line
  filter and the aggregation.
\<close>

theorem parse_line_time_unknown_month:
  "parse_line_time ''10.0.0.4 - carol [01/Foo/2024:23:59:59 +0000]'' = Inl KeyError
   \<and> collect_metrics bad_month_env 1 = Inl KeyError"
  by code_simp

text \<open>
  C3. The claim: a window of digits followed by \<open>h\<close> or \<open>H\<close> is parsed into its
  hour count. The code strips only the lower-case letter, so the conversion of every
  window that ends with \<open>H\<close> raises ValueError and nothing is collected.
\<close>

theorem export_metrics_upper_H:
  "export_metrics e (s @ ''H'') = Inl ValueError"
proof -
  have "rstrip (s @ ''H'') ''h'' = s @ ''H''" by (simp add: rstrip_def)
  then show ?thesis by (simp add: export_metrics_def py_int_upper_H)
qed

theorem export_metrics_upper_H_witness:
  "export_metrics example_env ''5H'' = Inl ValueError"
  using export_metrics_upper_H [of example_env "''5''"] by simp

text \<open>
  C4. In every result that \<open>collect_metrics\<close> returns, the counts by status code, by
  user and by source address each add up to the total, and the counts by endpoint add up
  to at most the total.
\<close>

theorem collect_metrics_sums:
  assumes "collect_metrics e w = Inr r"
  shows "values_sum (by_status r) = total r \<and> values_sum (by_user r) = total r
         \<and> values_sum (by_ip r) = total r \<and> values_sum (by_endpoint r) \<le> total r"
  using collect_metrics_inv(1) [OF assms] by (simp add: sums_agree_def)

theorem collect_metrics_sums_witness:
  "\<exists>r. collect_metrics example_env 24 = Inr r \<and> total r = 2
       \<and> values_sum (by_status r) = 2 \<and> values_sum (by_user r) = 2
       \<and> values_sum (by_ip r) = 2 \<and> values_sum (by_endpoint r) = 1"
  using collect_metrics_sums [OF example_env_24] example_env_24
  by (simp add: values_sum_def)

text \<open>
  C5. Of the lines of a scanned file, the line filter yields only lines whose timestamp is
  extracted and is not before the cutoff; a line with a timestamp before the cutoff is
  never yielded; when the scan of the file ends without an exception the yielded lines are
  exactly the lines in the window, a line stamped with the cutoff itself among them; and
  the total grows by one for each of them.
\<close>

theorem iter_log_file_window:
  assumes "files e p = Some lines" and "iter_log_file e p cutoff = (ys, stop)"
  shows "(\<forall>l \<in> set ys. l \<in> set lines \<and> (\<exists>ts. parse_line_time l = Inr (Some ts) \<and> cutoff \<le> ts))
       \<and> (\<forall>l ts. parse_line_time l = Inr (Some ts) \<and> ts < cutoff \<longrightarrow> l \<notin> set ys)
       \<and> (stop = None \<longrightarrow> ys = filter (in_window cutoff) lines)
       \<and> (stop = None \<longrightarrow> (\<forall>l \<in> set lines. parse_line_time l = Inr (Some cutoff) \<longrightarrow> l \<in> set ys))
       \<and> (\<forall>flags st st'. scan_file e cutoff flags p st = Inr st'
             \<longrightarrow> total st' = total st + length (filter (in_window cutoff) lines))"
proof -
  from assms have il: "iter_lines lines cutoff = (ys, stop)"
    by (simp add: iter_log_file_def)
  have sub: "set ys \<subseteq> {l \<in> set lines. in_window cutoff l}"
    using iter_lines_yields [of lines cutoff] il by simp
  have a: "\<forall>l \<in> set ys. l \<in> set lines \<and> (\<exists>ts. parse_line_time l = Inr (Some ts) \<and> cutoff \<le> ts)"
    using sub by (auto simp: in_window_iff)
  have b: "\<forall>l ts. parse_line_time l = Inr (Some ts) \<and> ts < cutoff \<longrightarrow> l \<notin> set ys"
    using a by fastforce
  have c: "stop = None \<longrightarrow> ys = filter (in_window cutoff) lines"
    using iter_lines_complete [of lines cutoff] il by simp
  have d: "stop = None \<longrightarrow> (\<forall>l \<in> set lines. parse_line_time l = Inr (Some cutoff) \<longrightarrow> l \<in> set ys)"
    using c by (auto simp: in_window_def)
  have e: "\<forall>flags st st'. scan_file e cutoff flags p st = Inr st'
             \<longrightarrow> total st' = total st + length (filter (in_window cutoff) lines)"
    using scan_file_total [of e cutoff _ p] assms(1) by (simp add: hits_def)
  from a b c d e show ?thesis by blast
qed

theorem iter_log_file_window_witness:
  "files example_env ''/nexus-data/log/request-2024-01-01.log'' = Some [early_line, scenario_line]
   \<and> iter_log_file example_env ''/nexus-data/log/request-2024-01-01.log'' example_cutoff
       = ([scenario_line], None)
   \<and> parse_line_time scenario_line = Inr (Some example_cutoff)
   \<and> parse_line_time early_line = Inr (Some ((738886 * 86400 + 36000) * 1000000))
   \<and> (738886 * 86400 + 36000) * 1000000 < example_cutoff
   \<and> [scenario_line] = filter (in_window example_cutoff) [early_line, scenario_line]"
  using iter_log_file_window [OF example_file example_iter] example_file example_iter example_times
  by (simp add: example_cutoff_def)

text \<open>
  C6. With the same clock and the same files, the total of a wider window is at least the
  total of a narrower one, for every two calls that return a result.
\<close>

theorem collect_metrics_widening:
  assumes "collect_metrics e w1 = Inr r1" and "collect_metrics e w2 = Inr r2" and "w1 < w2"
  shows "total r1 \<le> total r2"
  using collect_total_mono [OF assms(1,2)] assms(3) by simp

theorem collect_metrics_widening_witness:
  "\<exists>r1 r2. collect_metrics example_env 1 = Inr r1 \<and> collect_metrics example_env 24 = Inr r2
     \<and> (1::int) < 24 \<and> total r1 = 1 \<and> total r2 = 2 \<and> total r1 \<le> total r2"
  using collect_metrics_widening [OF example_env_1 example_env_24] example_env_1 example_env_24
  by simp

text \<open>
  C7. The exported series by endpoint are \<open>most_common(50)\<close> of the endpoint counts:
  at most 50 of them, each a counted endpoint, and no endpoint left out has a higher count
  than one exposed. Every other breakdown is exported item for item.
\<close>

theorem export_metrics_top_50:
  assumes "export_metrics e window = Inr reg"
  shows "\<exists>hours data. py_int (rstrip window ''h'') = Inr hours \<and> collect_metrics e hours = Inr data
     \<and> nexus_exporter_api_requests_by_endpoint reg = most_common 50 (by_endpoint data)
     \<and> length (nexus_exporter_api_requests_by_endpoint reg) = min 50 (length (by_endpoint data))
     \<and> set (nexus_exporter_api_requests_by_endpoint reg) \<subseteq> set (by_endpoint data)
     \<and> (\<forall>a \<in> set (nexus_exporter_api_requests_by_endpoint reg).
          \<forall>b \<in> set (by_endpoint data) - set (nexus_exporter_api_requests_by_endpoint reg).
            snd b \<le> snd a)
     \<and> nexus_exporter_requests_by_user reg = by_user data
     \<and> nexus_exporter_api_requests_by_repository reg = by_repo data
     \<and> nexus_exporter_api_requests_by_service reg = by_service data
     \<and> nexus_exporter_api_requests_by_source_ip reg = by_ip data
     \<and> nexus_exporter_api_requests_by_hour reg = by_hour data
     \<and> nexus_exporter_api_status_code_total reg = by_status data
     \<and> nexus_exporter_api_custom_flag_matches reg = custom_flags data"
proof -
  from assms obtain hours data data24 where
    h: "py_int (rstrip window ''h'') = Inr hours" and
    d: "collect_metrics e hours = Inr data" and
    d24: "collect_metrics e 24 = Inr data24" and
    r: "reg = \<lparr>nexus_exporter_api_requests_total = total data,
            nexus_exporter_api_requests_total_last_24h = total data24,
            nexus_exporter_requests_by_user = by_user data,
            nexus_exporter_api_requests_by_endpoint = most_common 50 (by_endpoint data),
            nexus_exporter_api_requests_by_repository = by_repo data,
            nexus_exporter_api_requests_by_service = by_service data,
            nexus_exporter_api_requests_by_source_ip = by_ip data,
            nexus_exporter_api_requests_by_hour = by_hour data,
            nexus_exporter_api_status_code_total = by_status data,
            nexus_exporter_api_custom_flag_matches = custom_flags data\<rparr>"
    by (rule export_metrics_result)
  have top: "\<forall>a \<in> set (most_common 50 (by_endpoint data)).
          \<forall>b \<in> set (by_endpoint data) - set (most_common 50 (by_endpoint data)). snd b \<le> snd a"
    using most_common_highest by blast
  show ?thesis
    using h d top most_common_subset [of 50 "by_endpoint data"]
    by (simp add: r most_common_length)
qed

theorem export_metrics_top_50_witness:
  "\<exists>reg data. export_metrics many_env ''1h'' = Inr reg \<and> collect_metrics many_env 1 = Inr data
     \<and> length (by_endpoint data) = 51
     \<and> nexus_exporter_api_requests_by_endpoint reg = most_common 50 (by_endpoint data)
     \<and> length (nexus_exporter_api_requests_by_endpoint reg) = 50
     \<and> hd (nexus_exporter_api_requests_by_endpoint reg) = (''/p51'', 2)
     \<and> nexus_exporter_requests_by_user reg = by_user data"
proof -
  obtain reg where ex: "export_metrics many_env ''1h'' = Inr reg"
    and hd: "hd (nexus_exporter_api_requests_by_endpoint reg) = (''/p51'', 2)"
    and len: "length (nexus_exporter_api_requests_by_endpoint reg) = 50"
    using many_env_export by simp
  obtain data0 where col: "collect_metrics many_env 1 = Inr data0"
    and len0: "length (by_endpoint data0) = 51"
    using many_env_collect by simp
  have p: "py_int (rstrip ''1h'' ''h'') = Inr 1" by code_simp
  from export_metrics_top_50 [OF ex] obtain hours data where
    h: "py_int (rstrip ''1h'' ''h'') = Inr hours" and
    d: "collect_metrics many_env hours = Inr data" and
    t: "nexus_exporter_api_requests_by_endpoint reg = most_common 50 (by_endpoint data)" and
    u: "nexus_exporter_requests_by_user reg = by_user data"
    by blast
  from h p have "hours = 1" by simp
  with d col have "data = data0" by simp
  with ex col len0 t len hd u show ?thesis by blast
qed

text \<open>
  C8. Whatever the window, an export that returns has run a second aggregation over 24
  hours and exposes its total as the last-24h value; every other exported value comes
  from the aggregation of the requested window.
\<close>

theorem export_metrics_last_24h:
  assumes "export_metrics e window = Inr reg"
  shows "\<exists>hours data data24. py_int (rstrip window ''h'') = Inr hours
     \<and> collect_metrics e hours = Inr data \<and> collect_metrics e 24 = Inr data24
     \<and> nexus_exporter_api_requests_total_last_24h reg = total data24
     \<and> reg\<lparr>nexus_exporter_api_requests_total_last_24h := 0\<rparr> =
         \<lparr>nexus_exporter_api_requests_total = total data,
          nexus_exporter_api_requests_total_last_24h = 0,
          nexus_exporter_requests_by_user = by_user data,
          nexus_exporter_api_requests_by_endpoint = most_common 50 (by_endpoint data),
          nexus_exporter_api_requests_by_repository = by_repo data,
          nexus_exporter_api_requests_by_service = by_service data,
          nexus_exporter_api_requests_by_source_ip = by_ip data,
          nexus_exporter_api_requests_by_hour = by_hour data,
          nexus_exporter_api_status_code_total = by_status data,
          nexus_exporter_api_custom_flag_matches = custom_flags data\<rparr>"
proof -
  from assms obtain hours data data24 where
    h: "py_int (rstrip window ''h'') = Inr hours" and
    d: "collect_metrics e hours = Inr data" and
    d24: "collect_metrics e 24 = Inr data24" and
    r: "reg = \<lparr>nexus_exporter_api_requests_total = total data,
            nexus_exporter_api_requests_total_last_24h = total data24,
            nexus_exporter_requests_by_user = by_user data,
            nexus_exporter_api_requests_by_endpoint = most_common 50 (by_endpoint data),
            nexus_exporter_api_requests_by_repository = by_repo data,
            nexus_exporter_api_requests_by_service = by_service data,
            nexus_exporter_api_requests_by_source_ip = by_ip data,
            nexus_exporter_api_requests_by_hour = by_hour data,
            nexus_exporter_api_status_code_total = by_status data,
            nexus_exporter_api_custom_flag_matches = custom_flags data\<rparr>"
    by (rule export_metrics_result)
  show ?thesis using h d d24 by (simp add: r)
qed

theorem export_metrics_last_24h_witness:
  "\<exists>reg data data24. export_metrics example_env ''1h'' = Inr reg
     \<and> collect_metrics example_env 1 = Inr data \<and> collect_metrics example_env 24 = Inr data24
     \<and> nexus_exporter_api_requests_total reg = total data \<and> total data = 1
     \<and> nexus_exporter_api_requests_total_last_24h reg = total data24 \<and> total data24 = 2"
proof -
  have p: "py_int (rstrip ''1h'' ''h'') = Inr 1" by code_simp
  from export_metrics_last_24h [OF example_export_1h] p
  show ?thesis using example_export_1h example_env_1 example_env_24 by simp
qed

text \<open>
  C9. In every result that \<open>collect_metrics\<close> returns, the counts by hour add up to
  the total: a counted line passed the filter, so its timestamp is extracted again.
\<close>

theorem collect_metrics_by_hour_sum:
  assumes "collect_metrics e w = Inr r"
  shows "values_sum (by_hour r) = total r"
  using collect_metrics_inv(1) [OF assms] by (simp add: sums_agree_def)

theorem collect_metrics_by_hour_sum_witness:
  "\<exists>r. collect_metrics example_env 24 = Inr r \<and> values_sum (by_hour r) = total r
       \<and> by_hour r = [(''10'', 1), (''23'', 1)]"
  using collect_metrics_by_hour_sum [OF example_env_24] example_env_24
  by simp

text \<open>
  C10. A line in the window with at least three and fewer than nine tokens is counted, with
  the empty string as its status code; and an export can carry the empty string as a
  status-code label.
\<close>

theorem count_line_empty_status:
  assumes "in_window cutoff line" and "3 \<le> length (split_ws line)" and "length (split_ws line) < 9"
  shows "(\<exists>st'. count_line flags line st = Inr st' \<and> total st' = Suc (total st)
            \<and> by_status st' = counter_inc (by_status st) [])
       \<and> (\<exists>e window reg n. export_metrics e window = Inr reg \<and> 0 < n
            \<and> ([], n) \<in> set (nexus_exporter_api_status_code_total reg))"
proof
  from count_line_returns [OF assms(1,2)] obtain st' where r: "count_line flags line st = Inr st'"
    by blast
  then show "\<exists>st'. count_line flags line st = Inr st' \<and> total st' = Suc (total st)
            \<and> by_status st' = counter_inc (by_status st) []"
    using count_line_fields(1) [OF r] count_line_effect(1) [OF r] assms(3) by simp
  show "\<exists>e window reg n. export_metrics e window = Inr reg \<and> 0 < n
            \<and> ([], n) \<in> set (nexus_exporter_api_status_code_total reg)"
    using example_export_24h by (intro exI [of _ example_env] exI [of _ "''24h''"] exI [of _ "1::nat"]) fastforce
qed

theorem count_line_empty_status_witness:
  "in_window 0 early_line \<and> length (split_ws early_line) = 5
   \<and> (\<exists>st'. count_line [] early_line no_metrics = Inr st' \<and> total st' = 1 \<and> by_status st' = [([], 1)])"
proof -
  have a: "3 \<le> length (split_ws early_line)" and b: "length (split_ws early_line) < 9"
    by (simp_all add: early_line_tokens)
  from count_line_empty_status [OF early_line_in_window a b, of "[]" no_metrics]
  show ?thesis using early_line_in_window by (simp add: early_line_tokens no_metrics_def)
qed

end
